theory Spec2Isabelle
  imports Complex_Main
begin

section \<open>The number type of the program\<close>

text \<open>
  Every quantity of \<^verbatim>\<open>gaugeMath.ts\<close>, \<^verbatim>\<open>referenceRanges.ts\<close> and \<^verbatim>\<open>Gauge.tsx\<close> is an
  ECMAScript \<^verbatim>\<open>number\<close>. The embedding keeps the three special values of that type and
  their arithmetic as IEEE 754 fixes it, and takes a finite number to be a real:

  \<^item> \<open>NaN\<close>, \<open>PInf\<close> (\<^verbatim>\<open>Infinity\<close>) and \<open>NInf\<close> (\<^verbatim>\<open>-Infinity\<close>) are values of their own;
    every comparison with \<open>NaN\<close> is false, \<^verbatim>\<open>Math.max\<close> and \<^verbatim>\<open>Math.min\<close> return \<open>NaN\<close> as
    soon as one argument is \<open>NaN\<close>, \<^verbatim>\<open>Infinity - Infinity\<close>, \<^verbatim>\<open>0 * Infinity\<close>,
    \<^verbatim>\<open>Infinity / Infinity\<close> and \<^verbatim>\<open>0 / 0\<close> are \<open>NaN\<close>, and a nonzero finite number divided
    by zero is an infinity;
  \<^item> arithmetic on finite numbers is exact: rounding to binary64 and overflow of a finite
    result to an infinity are not part of the model, so a statement about finite numbers
    is one about the program only where no intermediate result exceeds
    \<^verbatim>\<open>Number.MAX_VALUE\<close> and the statement survives monotone rounding;
  \<^item> there is one zero, \<open>Fin 0\<close>, which stands for \<^verbatim>\<open>+0\<close>; the negative zero is not
    represented, so a quotient by zero has the sign of its numerator. In the program
    \<^verbatim>\<open>max - min\<close> is \<^verbatim>\<open>-0\<close> only for \<^verbatim>\<open>max = -0\<close> and \<^verbatim>\<open>min = +0\<close>.
\<close>

datatype jsnum = NaN | NInf | PInf | Fin real

text \<open>The largest finite binary64 number, \<^verbatim>\<open>Number.MAX_VALUE\<close>.\<close>

definition Number_MAX_VALUE :: real where
  "Number_MAX_VALUE = 2 ^ 1024 - 2 ^ 971"

fun js_neg :: "jsnum \<Rightarrow> jsnum" where
  "js_neg NaN = NaN"
| "js_neg NInf = PInf"
| "js_neg PInf = NInf"
| "js_neg (Fin a) = Fin (- a)"

fun js_add :: "jsnum \<Rightarrow> jsnum \<Rightarrow> jsnum" where
  "js_add NaN b = NaN"
| "js_add a NaN = NaN"
| "js_add PInf NInf = NaN"
| "js_add NInf PInf = NaN"
| "js_add PInf b = PInf"
| "js_add a PInf = PInf"
| "js_add NInf b = NInf"
| "js_add a NInf = NInf"
| "js_add (Fin a) (Fin b) = Fin (a + b)"

definition js_sub :: "jsnum \<Rightarrow> jsnum \<Rightarrow> jsnum" where
  "js_sub a b = js_add a (js_neg b)"

text \<open>An infinity with the sign flipped when the other factor is negative.\<close>

definition signed_inf :: "bool \<Rightarrow> jsnum" where
  "signed_inf negative = (if negative then NInf else PInf)"

fun js_mul :: "jsnum \<Rightarrow> jsnum \<Rightarrow> jsnum" where
  "js_mul NaN b = NaN"
| "js_mul a NaN = NaN"
| "js_mul PInf PInf = PInf"
| "js_mul PInf NInf = NInf"
| "js_mul NInf PInf = NInf"
| "js_mul NInf NInf = PInf"
| "js_mul PInf (Fin b) = (if b = 0 then NaN else signed_inf (b < 0))"
| "js_mul NInf (Fin b) = (if b = 0 then NaN else signed_inf (0 < b))"
| "js_mul (Fin a) PInf = (if a = 0 then NaN else signed_inf (a < 0))"
| "js_mul (Fin a) NInf = (if a = 0 then NaN else signed_inf (0 < a))"
| "js_mul (Fin a) (Fin b) = Fin (a * b)"

fun js_div :: "jsnum \<Rightarrow> jsnum \<Rightarrow> jsnum" where
  "js_div NaN b = NaN"
| "js_div a NaN = NaN"
| "js_div PInf PInf = NaN"
| "js_div PInf NInf = NaN"
| "js_div NInf PInf = NaN"
| "js_div NInf NInf = NaN"
| "js_div PInf (Fin b) = signed_inf (b < 0)"
| "js_div NInf (Fin b) = signed_inf (0 \<le> b)"
| "js_div (Fin a) PInf = Fin 0"
| "js_div (Fin a) NInf = Fin 0"
| "js_div (Fin a) (Fin b) =
     (if b = 0 then (if a = 0 then NaN else signed_inf (a < 0)) else Fin (a / b))"

text \<open>The comparisons \<^verbatim>\<open><=\<close>, \<^verbatim>\<open><\<close>, \<^verbatim>\<open>>=\<close>, \<^verbatim>\<open>>\<close> and \<^verbatim>\<open>===\<close> on numbers.\<close>

fun js_le :: "jsnum \<Rightarrow> jsnum \<Rightarrow> bool" where
  "js_le NaN b = False"
| "js_le a NaN = False"
| "js_le NInf b = True"
| "js_le a PInf = True"
| "js_le PInf b = False"
| "js_le a NInf = False"
| "js_le (Fin a) (Fin b) = (a \<le> b)"

fun js_lt :: "jsnum \<Rightarrow> jsnum \<Rightarrow> bool" where
  "js_lt NaN b = False"
| "js_lt a NaN = False"
| "js_lt PInf b = False"
| "js_lt a NInf = False"
| "js_lt NInf b = True"
| "js_lt a PInf = True"
| "js_lt (Fin a) (Fin b) = (a < b)"

definition js_ge :: "jsnum \<Rightarrow> jsnum \<Rightarrow> bool" where
  "js_ge a b = js_le b a"

definition js_gt :: "jsnum \<Rightarrow> jsnum \<Rightarrow> bool" where
  "js_gt a b = js_lt b a"

definition js_eq :: "jsnum \<Rightarrow> jsnum \<Rightarrow> bool" where
  "js_eq a b = (a \<noteq> NaN \<and> a = b)"

text \<open>\<^verbatim>\<open>Math.max\<close> and \<^verbatim>\<open>Math.min\<close> of two arguments, \<^verbatim>\<open>Math.abs\<close>.\<close>

definition js_max :: "jsnum \<Rightarrow> jsnum \<Rightarrow> jsnum" where
  "js_max a b = (if a = NaN \<or> b = NaN then NaN else if js_le a b then b else a)"

definition js_min :: "jsnum \<Rightarrow> jsnum \<Rightarrow> jsnum" where
  "js_min a b = (if a = NaN \<or> b = NaN then NaN else if js_le a b then a else b)"


section \<open>gaugeMath.ts: clamping, percentage and angle\<close>

definition clampValue :: "jsnum \<Rightarrow> jsnum \<Rightarrow> jsnum \<Rightarrow> jsnum" where
  "clampValue v mn mx = js_max mn (js_min mx v)"

definition valueToPercentage :: "jsnum \<Rightarrow> jsnum \<Rightarrow> jsnum \<Rightarrow> jsnum" where
  "valueToPercentage v mn mx =
     (if js_eq mx mn then Fin 0
      else let clamped = clampValue v mn mx
           in js_div (js_sub clamped mn) (js_sub mx mn))"

text \<open>
  The divisors of the divisions that one call of \<^verbatim>\<open>valueToPercentage\<close> performs, in order:
  none on the early return, \<^verbatim>\<open>max - min\<close> otherwise.
\<close>

definition valueToPercentage_divisors :: "jsnum \<Rightarrow> jsnum \<Rightarrow> jsnum \<Rightarrow> jsnum list" where
  "valueToPercentage_divisors v mn mx =
     (if js_eq mx mn then [] else [js_sub mx mn])"

definition percentageToAngle :: "jsnum \<Rightarrow> jsnum" where
  "percentageToAngle percentage =
     (let clampedPercentage = clampValue percentage (Fin 0) (Fin 1)
      in js_sub (Fin 180) (js_mul clampedPercentage (Fin 180)))"

definition valueToAngle :: "jsnum \<Rightarrow> jsnum \<Rightarrow> jsnum \<Rightarrow> jsnum" where
  "valueToAngle v mn mx = percentageToAngle (valueToPercentage v mn mx)"

record arc_angles =
  startAngle :: jsnum
  endAngle :: jsnum

definition zoneToArcAngles :: "jsnum \<Rightarrow> jsnum \<Rightarrow> jsnum \<Rightarrow> jsnum \<Rightarrow> arc_angles" where
  "zoneToArcAngles zoneStart zoneEnd rangeMin rangeMax =
     \<lparr> startAngle = valueToAngle zoneStart rangeMin rangeMax,
       endAngle = valueToAngle zoneEnd rangeMin rangeMax \<rparr>"

text \<open>Membership in a closed interval, by the program's own comparison.\<close>

definition js_between :: "jsnum \<Rightarrow> jsnum \<Rightarrow> jsnum \<Rightarrow> bool" where
  "js_between lo hi a = (js_le lo a \<and> js_le a hi)"

section \<open>gaugeMath.ts: points and arc paths\<close>







subsection \<open>Numbers as text\<close>

text \<open>
  The decimal digits of a natural number, most significant first, and the decimal numeral
  of an integer.
\<close>

definition digit_char :: "nat \<Rightarrow> char" where
  "digit_char d = ''0123456789'' ! d"

fun nat_str :: "nat \<Rightarrow> string" where
  "nat_str n = (if n < 10 then [digit_char n] else nat_str (n div 10) @ [digit_char (n mod 10)])"

declare nat_str.simps [simp del]

definition int_str :: "int \<Rightarrow> string" where
  "int_str i = (if i < 0 then ''-'' @ nat_str (nat (- i)) else nat_str (nat i))"

text \<open>
  \<^verbatim>\<open>Number::toString\<close>, which a template literal and \<^verbatim>\<open>toString()\<close> apply. The special
  values have fixed names. Every finite number is written with the shortest digit string
  that reads back as the same binary64 value, padded with zeros up to the point. For an
  integer of magnitude at most \<open>2\<^sup>5\<^sup>3\<close> that string is its decimal numeral, since all the
  integers around it are binary64 numbers too. For every other finite number (a larger
  integer such as \<open>2\<^sup>6\<^sup>0\<close>, printed \<^verbatim>\<open>1152921504606847000\<close>, or a non-integer) it depends
  on the binary representation: that part is the parameter \<open>shortest\<close>.
\<close>

definition js_toString :: "(real \<Rightarrow> string) \<Rightarrow> jsnum \<Rightarrow> string" where
  "js_toString shortest v =
     (case v of
        NaN \<Rightarrow> ''NaN''
      | PInf \<Rightarrow> ''Infinity''
      | NInf \<Rightarrow> ''-Infinity''
      | Fin a \<Rightarrow>
          if of_int \<lfloor>a\<rfloor> = a \<and> \<bar>a\<bar> \<le> 2 ^ 53 then int_str \<lfloor>a\<rfloor> else shortest a)"


section \<open>gaugeMath.ts: formatting a value for display\<close>

datatype error = RangeError

definition Number_isInteger :: "jsnum \<Rightarrow> bool" where
  "Number_isInteger v = (case v of Fin a \<Rightarrow> of_int \<lfloor>a\<rfloor> = a | _ \<Rightarrow> False)"

text \<open>\<^verbatim>\<open>Math.round\<close>: the nearest integer, a tie going up.\<close>

definition Math_round :: "jsnum \<Rightarrow> jsnum" where
  "Math_round v = (case v of Fin a \<Rightarrow> Fin (of_int \<lfloor>a + 1 / 2\<rfloor>) | _ \<Rightarrow> v)"

text \<open>
  \<^verbatim>\<open>ToIntegerOrInfinity\<close>, as \<^verbatim>\<open>toFixed\<close> applies it to its argument: \<open>NaN\<close> is 0, a finite
  number is truncated towards zero, and an infinity (\<open>None\<close> here) stays one.
\<close>

definition ToIntegerOrInfinity :: "jsnum \<Rightarrow> int option" where
  "ToIntegerOrInfinity v =
     (case v of
        NaN \<Rightarrow> Some 0
      | Fin a \<Rightarrow> Some (if a < 0 then - \<lfloor>- a\<rfloor> else \<lfloor>a\<rfloor>)
      | _ \<Rightarrow> None)"

text \<open>
  \<^verbatim>\<open>Number.prototype.toFixed\<close> on a finite number below \<open>10\<^sup>2\<^sup>1\<close> in magnitude, with \<open>f\<close>
  fraction digits: \<open>n\<close> is the integer closest to \<open>x * 10\<^sup>f\<close> (the larger one on a tie),
  written with at least \<open>f + 1\<close> digits, and the point goes before the last \<open>f\<close> of them.
\<close>

definition toFixed_digits :: "real \<Rightarrow> nat \<Rightarrow> string" where
  "toFixed_digits x f =
     (let n = nat \<lfloor>x * 10 ^ f + 1 / 2\<rfloor>;
          m = nat_str n
      in if f \<noteq> 0
         then let k = length m;
                  m = (if k \<le> f then replicate (f + 1 - k) (CHR ''0'') @ m else m);
                  k = (if k \<le> f then f + 1 else k)
              in take (k - f) m @ ''.'' @ drop (k - f) m
         else m)"

definition js_toFixed :: "(real \<Rightarrow> string) \<Rightarrow> jsnum \<Rightarrow> jsnum \<Rightarrow> error + string" where
  "js_toFixed shortest v fractionDigits =
     (case ToIntegerOrInfinity fractionDigits of
        None \<Rightarrow> Inl RangeError
      | Some f \<Rightarrow>
          if f < 0 \<or> 100 < f then Inl RangeError
          else (case v of
                  Fin a \<Rightarrow>
                    (let s = (if a < 0 then ''-'' else []);
                         x = (if a < 0 then - a else a)
                     in if 10 ^ 21 \<le> x then Inr (s @ js_toString shortest (Fin x))
                        else Inr (s @ toFixed_digits x (nat f)))
                | _ \<Rightarrow> Inr (js_toString shortest v)))"

text \<open>
  \<^verbatim>\<open>formatDisplayValue\<close> with both arguments given; a call that leaves \<^verbatim>\<open>decimalPlaces\<close> out
  is the call with 1. The only failure is the \<^verbatim>\<open>RangeError\<close> that \<^verbatim>\<open>toFixed\<close> throws.
\<close>

definition formatDisplayValue :: "(real \<Rightarrow> string) \<Rightarrow> jsnum \<Rightarrow> jsnum \<Rightarrow> error + string" where
  "formatDisplayValue shortest v decimalPlaces =
     (if Number_isInteger v \<or> js_eq decimalPlaces (Fin 0)
      then Inr (js_toString shortest (Math_round v))
      else js_toFixed shortest v decimalPlaces)"

section \<open>referenceRanges.ts: the zone tables and the classifier\<close>

datatype MetricKey = MF | PI | DF | BF | ACI | MAP

datatype ZoneType = green | yellow | red

record ZoneBoundary =
  start :: jsnum
  end' :: jsnum
  type' :: ZoneType

record MetricRange =
  min' :: jsnum
  max' :: jsnum
  unit' :: string
  label :: string
  zones :: "ZoneBoundary list"

definition zone :: "real \<Rightarrow> real \<Rightarrow> ZoneType \<Rightarrow> ZoneBoundary" where
  "zone s e t = \<lparr> start = Fin s, end' = Fin e, type' = t \<rparr>"

fun REFERENCE_RANGES :: "MetricKey \<Rightarrow> MetricRange" where
  "REFERENCE_RANGES MF =
     \<lparr> min' = Fin 0, max' = Fin 200, unit' = ''mL/min'', label = ''Mean Flow'',
       zones = [zone 0 15 red, zone 15 30 yellow, zone 30 200 green] \<rparr>"
| "REFERENCE_RANGES PI =
     \<lparr> min' = Fin 0, max' = Fin 10, unit' = [], label = ''Pulsatility Index'',
       zones = [zone 0 3 green, zone 3 5 yellow, zone 5 10 red] \<rparr>"
| "REFERENCE_RANGES DF =
     \<lparr> min' = Fin 0, max' = Fin 100, unit' = ''%'', label = ''Diastolic Filling'',
       zones = [zone 0 50 red, zone 50 70 yellow, zone 70 100 green] \<rparr>"
| "REFERENCE_RANGES BF =
     \<lparr> min' = Fin 0, max' = Fin 50, unit' = ''%'', label = ''Backflow'',
       zones = [zone 0 3 green, zone 3 10 yellow, zone 10 50 red] \<rparr>"
| "REFERENCE_RANGES ACI =
     \<lparr> min' = Fin 0, max' = Fin 100, unit' = ''%'', label = ''Acoustic Coupling'',
       zones = [zone 0 50 red, zone 50 80 yellow, zone 80 100 green] \<rparr>"
| "REFERENCE_RANGES MAP =
     \<lparr> min' = Fin 0, max' = Fin 200, unit' = ''mmHg'', label = ''Mean Arterial Pressure'',
       zones = [zone 0 60 red, zone 60 70 yellow, zone 70 105 green,
                zone 105 120 yellow, zone 120 200 red] \<rparr>"

text \<open>The test of the loop body: the clamped value lies in the closed interval of the zone.\<close>

definition zone_contains :: "jsnum \<Rightarrow> ZoneBoundary \<Rightarrow> bool" where
  "zone_contains clampedValue z =
     (js_ge clampedValue (start z) \<and> js_le clampedValue (end' z))"

text \<open>The \<^verbatim>\<open>for ... of\<close> loop over the zones, with the fallback after it.\<close>

fun zone_loop :: "jsnum \<Rightarrow> ZoneBoundary list \<Rightarrow> ZoneType" where
  "zone_loop clampedValue [] = red"
| "zone_loop clampedValue (z # rest) =
     (if zone_contains clampedValue z then type' z else zone_loop clampedValue rest)"

text \<open>
  \<^verbatim>\<open>getZoneForValue\<close> reads its range from the table; \<open>getZoneForValue_range\<close> is its body
  from the second line on, for any range.
\<close>

definition getZoneForValue_range :: "MetricRange \<Rightarrow> jsnum \<Rightarrow> ZoneType" where
  "getZoneForValue_range rng v =
     (let clampedValue = js_max (min' rng) (js_min (max' rng) v)
      in zone_loop clampedValue (zones rng))"

definition getZoneForValue :: "MetricKey \<Rightarrow> jsnum \<Rightarrow> ZoneType" where
  "getZoneForValue metricKey v = getZoneForValue_range (REFERENCE_RANGES metricKey) v"

text \<open>
  A well-formed zone table: the first zone starts at \<open>min\<close>, every zone starts where the
  one before it ends and strictly after that one starts, and the last zone ends at \<open>max\<close>.
\<close>

fun covers :: "real \<Rightarrow> ZoneBoundary list \<Rightarrow> real \<Rightarrow> bool" where
  "covers lo [] hi = False"
| "covers lo (z # rest) hi =
     (start z = Fin lo \<and>
      (case end' z of
         Fin e \<Rightarrow> if rest = [] then lo \<le> e \<and> e = hi else lo < e \<and> covers e rest hi
       | _ \<Rightarrow> False))"

definition well_formed :: "MetricRange \<Rightarrow> bool" where
  "well_formed rng =
     (case (min' rng, max' rng) of
        (Fin lo, Fin hi) \<Rightarrow> covers lo (zones rng) hi
      | _ \<Rightarrow> False)"

section \<open>Gauge.tsx: the fill percentage\<close>

text \<open>The first statement of the component, \<^verbatim>\<open>percentage\<close>, which becomes \<^verbatim>\<open>fillValue\<close>.\<close>

definition Gauge_percentage :: "jsnum \<Rightarrow> jsnum \<Rightarrow> jsnum \<Rightarrow> jsnum" where
  "Gauge_percentage v mn mx =
     js_max (Fin 0)
       (js_min (Fin 100) (js_mul (js_div (js_sub v mn) (js_sub mx mn)) (Fin 100)))"

section \<open>Reading a decimal numeral\<close>

text \<open>
  What a rendered number denotes, to state what \<^verbatim>\<open>formatDisplayValue\<close> renders: the digits
  after the point, and the value of an optional minus sign, an integer part and an
  optional point with a fraction part.
\<close>

definition is_digit :: "char \<Rightarrow> bool" where
  "is_digit c = (c \<in> set ''0123456789'')"

definition digit_val :: "char \<Rightarrow> nat" where
  "digit_val c = length (takeWhile (\<lambda>d. d \<noteq> c) ''0123456789'')"

definition digits_val :: "string \<Rightarrow> nat" where
  "digits_val s = foldl (\<lambda>acc c. 10 * acc + digit_val c) 0 s"

definition fraction_part :: "string \<Rightarrow> string" where
  "fraction_part s = drop 1 (dropWhile (\<lambda>c. c \<noteq> CHR ''.'') s)"

definition dec_value :: "string \<Rightarrow> real" where
  "dec_value s =
     (let negative = (take 1 s = ''-'');
          body = (if negative then drop 1 s else s);
          ip = takeWhile (\<lambda>c. c \<noteq> CHR ''.'') body;
          fp = fraction_part body;
          magnitude = real (digits_val (ip @ fp)) / 10 ^ length fp
      in if negative then - magnitude else magnitude)"

text \<open>
  A value for the parameter \<open>shortest\<close> where a closed term needs one; the results stated
  with it do not consult it.
\<close>

definition unknown_digits :: "real \<Rightarrow> string" where
  "unknown_digits a = ''?''"

section \<open>Approximate coordinates\<close>



section \<open>Degenerate range\<close>

text \<open>
  Claim C3. On a degenerate range, where \<^verbatim>\<open>max === min\<close> holds (every bound but \<open>NaN\<close>,
  which is not equal to itself), \<^verbatim>\<open>valueToPercentage\<close> returns 0 for every value, \<open>NaN\<close>
  and the infinities included, and performs no division at all, hence none by zero.
\<close>

theorem valueToPercentage_degenerate:
  "m \<noteq> NaN \<Longrightarrow>
     valueToPercentage v m m = Fin 0 \<and> valueToPercentage_divisors v m m = []"
  by (simp add: valueToPercentage_def valueToPercentage_divisors_def js_eq_def)

theorem valueToPercentage_degenerate_witness:
  "Fin 7 \<noteq> NaN \<and> valueToPercentage NaN (Fin 7) (Fin 7) = Fin 0
     \<and> valueToPercentage_divisors NaN (Fin 7) (Fin 7) = []"
  using valueToPercentage_degenerate [of "Fin 7" NaN] by simp

section \<open>Facts about clamping\<close>

lemma js_le_not_NaN: "js_le a b \<Longrightarrow> a \<noteq> NaN \<and> b \<noteq> NaN"
  by (cases a; cases b) auto

lemma clampValue_finite:
  assumes "v \<noteq> NaN"
  shows "clampValue v (Fin mn) (Fin mx) =
           Fin (max mn (min mx (case v of Fin a \<Rightarrow> a | PInf \<Rightarrow> mx | _ \<Rightarrow> mn)))"
  using assms by (cases v) (auto simp: clampValue_def js_max_def js_min_def)

lemma clampValue_NaN: "clampValue NaN a b = NaN"
  by (simp add: clampValue_def js_max_def js_min_def)

lemma clampValue_idem: "clampValue (clampValue v a b) a b = clampValue v a b"
  by (cases v; cases a; cases b) (auto simp: clampValue_def js_max_def js_min_def)

lemma clampValue_inside: "js_le a v \<Longrightarrow> js_le v b \<Longrightarrow> clampValue v a b = v"
  by (cases v; cases a; cases b) (auto simp: clampValue_def js_max_def js_min_def)

lemma unit_clamp_mono: "a \<le> b \<Longrightarrow> max 0 (min 1 a) \<le> max (0::real) (min 1 b)"
  by (simp add: max_def min_def)

section \<open>Percentage and angle\<close>

lemma valueToPercentage_Fin:
  assumes "v \<noteq> NaN" "mn < mx"
  shows "valueToPercentage v (Fin mn) (Fin mx) =
           Fin ((max mn (min mx (case v of Fin a \<Rightarrow> a | PInf \<Rightarrow> mx | _ \<Rightarrow> mn)) - mn)
                / (mx - mn))"
  using assms by (simp add: valueToPercentage_def js_eq_def clampValue_finite js_sub_def)

lemma valueToPercentage_unit:
  assumes "v \<noteq> NaN"
  shows "\<exists>p. valueToPercentage v (Fin mn) (Fin mx) = Fin p \<and> 0 \<le> p \<and> p \<le> 1"
proof (cases "mx = mn")
  case True
  then show ?thesis by (simp add: valueToPercentage_def js_eq_def)
next
  case False
  define c where "c = max mn (min mx (case v of Fin a \<Rightarrow> a | PInf \<Rightarrow> mx | _ \<Rightarrow> mn))"
  have c: "clampValue v (Fin mn) (Fin mx) = Fin c"
    unfolding c_def by (rule clampValue_finite [OF assms])
  have eq: "valueToPercentage v (Fin mn) (Fin mx) = Fin ((c - mn) / (mx - mn))"
    using False by (simp add: valueToPercentage_def js_eq_def c js_sub_def)
  show ?thesis
  proof (cases "mn < mx")
    case True
    then have "mn \<le> c" "c \<le> mx" by (auto simp: c_def)
    then have "0 \<le> (c - mn) / (mx - mn)" "(c - mn) / (mx - mn) \<le> 1"
      using True by (auto simp: divide_simps)
    then show ?thesis using eq by simp
  next
    case False
    with \<open>mx \<noteq> mn\<close> have "mx < mn" by simp
    then have "c = mn" by (auto simp: c_def)
    then show ?thesis using eq by simp
  qed
qed

lemma percentageToAngle_Fin:
  "percentageToAngle (Fin p) = Fin (180 - max 0 (min 1 p) * 180)"
  by (auto simp: percentageToAngle_def clampValue_def js_max_def js_min_def js_sub_def)

lemma percentageToAngle_semicircle:
  assumes "p \<noteq> NaN"
  shows "\<exists>a. percentageToAngle p = Fin a \<and> 0 \<le> a \<and> a \<le> 180"
  using assms
  by (cases p)
     (auto simp: percentageToAngle_def clampValue_def js_max_def js_min_def js_sub_def)

text \<open>
  Claim C2, as the source has it. For a value that is not \<open>NaN\<close> and finite bounds,
  \<^verbatim>\<open>valueToPercentage\<close> returns a number of \<open>[0, 1]\<close> and \<^verbatim>\<open>valueToAngle\<close> one of
  \<open>[0, 180]\<close>; for every percentage but \<open>NaN\<close>, the infinities included,
  \<^verbatim>\<open>percentageToAngle\<close> returns a number of \<open>[0, 180]\<close>. No operation has a failing branch.
\<close>

theorem percentage_and_angle_in_range:
  assumes "v \<noteq> NaN" and "p \<noteq> NaN"
  shows "js_between (Fin 0) (Fin 1) (valueToPercentage v (Fin mn) (Fin mx))
       \<and> js_between (Fin 0) (Fin 180) (percentageToAngle p)
       \<and> js_between (Fin 0) (Fin 180) (valueToAngle v (Fin mn) (Fin mx))"
proof -
  obtain q where q: "valueToPercentage v (Fin mn) (Fin mx) = Fin q" "0 \<le> q" "q \<le> 1"
    using valueToPercentage_unit [OF assms(1)] by blast
  obtain a where a: "percentageToAngle p = Fin a" "0 \<le> a" "a \<le> 180"
    using percentageToAngle_semicircle [OF assms(2)] by blast
  obtain b where b: "percentageToAngle (Fin q) = Fin b" "0 \<le> b" "b \<le> 180"
    using percentageToAngle_semicircle [of "Fin q"] by auto
  show ?thesis
    using q a b by (simp add: js_between_def valueToAngle_def)
qed

theorem percentage_and_angle_in_range_witness:
  "PInf \<noteq> NaN \<and> NInf \<noteq> NaN
   \<and> js_between (Fin 0) (Fin 1) (valueToPercentage PInf (Fin 0) (Fin 200))
   \<and> js_between (Fin 0) (Fin 180) (percentageToAngle NInf)
   \<and> js_between (Fin 0) (Fin 180) (valueToAngle PInf (Fin 0) (Fin 200))"
  using percentage_and_angle_in_range [of PInf NInf 0 200] by simp

text \<open>
  The claim as it is written fails where it reaches furthest: a \<open>NaN\<close> value goes through
  both clamps and the quotient, a finite value between infinite bounds gives
  \<^verbatim>\<open>Infinity / Infinity\<close>, and a \<open>NaN\<close> percentage gives a \<open>NaN\<close> angle.
\<close>

theorem percentage_and_angle_counterexample:
  "\<not> js_between (Fin 0) (Fin 1) (valueToPercentage NaN (Fin 0) (Fin 1))
   \<and> \<not> js_between (Fin 0) (Fin 1) (valueToPercentage (Fin 5) NInf PInf)
   \<and> \<not> js_between (Fin 0) (Fin 180) (percentageToAngle NaN)"
  by (simp add: js_between_def valueToPercentage_def percentageToAngle_def js_eq_def
        clampValue_def js_max_def js_min_def js_sub_def)

text \<open>
  Claim C4, as the source has it. For finite bounds \<open>min < max\<close> whose difference does not
  exceed \<^verbatim>\<open>Number.MAX_VALUE\<close>, every value at or below \<open>min\<close> (\<^verbatim>\<open>-Infinity\<close> included) has
  percentage 0 and angle 180, and every value at or above \<open>max\<close> (\<^verbatim>\<open>Infinity\<close> included)
  has percentage 1 and angle 0. The bound on the difference is what keeps \<^verbatim>\<open>max - min\<close>
  finite in the program; the exact arithmetic of the model does not use it.
\<close>

theorem out_of_range_clamped:
  assumes bounds: "mn < mx" and fits: "mx - mn \<le> Number_MAX_VALUE"
  shows "(js_le v (Fin mn) \<longrightarrow>
            valueToPercentage v (Fin mn) (Fin mx) = Fin 0
            \<and> valueToAngle v (Fin mn) (Fin mx) = Fin 180)
       \<and> (js_ge v (Fin mx) \<longrightarrow>
            valueToPercentage v (Fin mn) (Fin mx) = Fin 1
            \<and> valueToAngle v (Fin mn) (Fin mx) = Fin 0)"
proof -
  have low: "valueToPercentage v (Fin mn) (Fin mx) = Fin 0" if "js_le v (Fin mn)"
  proof -
    have "v \<noteq> NaN" using that js_le_not_NaN by blast
    then show ?thesis using that bounds by (cases v) (auto simp: valueToPercentage_Fin)
  qed
  have high: "valueToPercentage v (Fin mn) (Fin mx) = Fin 1" if "js_le (Fin mx) v"
  proof -
    have "v \<noteq> NaN" using that js_le_not_NaN by blast
    then show ?thesis using that bounds by (cases v) (auto simp: valueToPercentage_Fin)
  qed
  show ?thesis
    using low high by (auto simp: js_ge_def valueToAngle_def percentageToAngle_Fin)
qed

theorem out_of_range_clamped_witness:
  "(0::real) < 200 \<and> (200::real) - 0 \<le> Number_MAX_VALUE
   \<and> js_le (Fin (-5)) (Fin 0) \<and> js_ge PInf (Fin 200)
   \<and> valueToPercentage (Fin (-5)) (Fin 0) (Fin 200) = Fin 0
   \<and> valueToAngle (Fin (-5)) (Fin 0) (Fin 200) = Fin 180
   \<and> valueToPercentage PInf (Fin 0) (Fin 200) = Fin 1
   \<and> valueToAngle PInf (Fin 0) (Fin 200) = Fin 0"
proof -
  have lt: "(0::real) < 200" by simp
  have fits: "(200::real) - 0 \<le> Number_MAX_VALUE" by (simp add: Number_MAX_VALUE_def)
  have le: "js_le (Fin (-5)) (Fin 0)" by simp
  have ge: "js_ge PInf (Fin 200)" by (simp add: js_ge_def)
  show ?thesis
    using lt fits le ge out_of_range_clamped [OF lt fits, of "Fin (-5)"]
      out_of_range_clamped [OF lt fits, of PInf]
    by simp
qed

text \<open>
  The claim as it is written, for every \<open>min < max\<close>, fails at an infinite bound: with
  \<open>min = -Infinity\<close> the value \<^verbatim>\<open>-Infinity\<close> is at the lower bound, and both differences
  are \<^verbatim>\<open>Infinity - Infinity\<close>.
\<close>

theorem out_of_range_clamped_counterexample:
  "js_lt NInf (Fin 0) \<and> js_le NInf NInf
   \<and> valueToPercentage NInf NInf (Fin 0) = NaN
   \<and> valueToAngle NInf NInf (Fin 0) = NaN"
  by (simp add: valueToAngle_def valueToPercentage_def percentageToAngle_def js_eq_def
        clampValue_def js_max_def js_min_def js_sub_def)

text \<open>
  Claim C6, as the source has it. For finite bounds \<open>min < max\<close> whose difference does not
  exceed \<^verbatim>\<open>Number.MAX_VALUE\<close>, \<^verbatim>\<open>valueToAngle\<close> does not increase when the value increases,
  on the range and outside it; hence \<^verbatim>\<open>zoneToArcAngles\<close> gives a start angle that is at
  least the end angle whenever \<open>zoneStart \<le> zoneEnd\<close>. The bound on the difference is
  what keeps \<^verbatim>\<open>max - min\<close> finite in the program; the exact arithmetic of the model does
  not use it.
\<close>

theorem valueToAngle_antimono:
  assumes bounds: "mn < mx" and fits: "mx - mn \<le> Number_MAX_VALUE" and le: "js_le v w"
  shows "js_le (valueToAngle w (Fin mn) (Fin mx)) (valueToAngle v (Fin mn) (Fin mx))
       \<and> js_ge (startAngle (zoneToArcAngles v w (Fin mn) (Fin mx)))
               (endAngle (zoneToArcAngles v w (Fin mn) (Fin mx)))"
proof -
  have nn: "v \<noteq> NaN" "w \<noteq> NaN" using le js_le_not_NaN by blast+
  define c where
    "c = (\<lambda>u. max mn (min mx (case u of Fin a \<Rightarrow> a | PInf \<Rightarrow> mx | _ \<Rightarrow> mn)))"
  define q where "q = (\<lambda>u. max 0 (min 1 ((c u - mn) / (mx - mn))))"
  have "c v \<le> c w" using le unfolding c_def by (cases v; cases w) auto
  then have "(c v - mn) / (mx - mn) \<le> (c w - mn) / (mx - mn)"
    using bounds by (simp add: divide_right_mono)
  then have qle: "q v \<le> q w"
    unfolding q_def by (rule unit_clamp_mono)
  have "valueToAngle v (Fin mn) (Fin mx) = Fin (180 - q v * 180)"
    unfolding valueToAngle_def valueToPercentage_Fin [OF nn(1) bounds] percentageToAngle_Fin
      q_def c_def ..
  moreover have "valueToAngle w (Fin mn) (Fin mx) = Fin (180 - q w * 180)"
    unfolding valueToAngle_def valueToPercentage_Fin [OF nn(2) bounds] percentageToAngle_Fin
      q_def c_def ..
  ultimately have "js_le (valueToAngle w (Fin mn) (Fin mx)) (valueToAngle v (Fin mn) (Fin mx))"
    using qle by simp
  then show ?thesis by (simp add: zoneToArcAngles_def js_ge_def)
qed

theorem valueToAngle_antimono_witness:
  "(0::real) < 200 \<and> (200::real) - 0 \<le> Number_MAX_VALUE \<and> js_le (Fin 15) (Fin 30)
   \<and> js_le (valueToAngle (Fin 30) (Fin 0) (Fin 200)) (valueToAngle (Fin 15) (Fin 0) (Fin 200))
   \<and> js_ge (startAngle (zoneToArcAngles (Fin 15) (Fin 30) (Fin 0) (Fin 200)))
           (endAngle (zoneToArcAngles (Fin 15) (Fin 30) (Fin 0) (Fin 200)))"
proof -
  have lt: "(0::real) < 200" by simp
  have fits: "(200::real) - 0 \<le> Number_MAX_VALUE" by (simp add: Number_MAX_VALUE_def)
  have le: "js_le (Fin 15) (Fin 30)" by simp
  show ?thesis using lt fits le valueToAngle_antimono [OF lt fits le] by simp
qed

text \<open>
  The claim as it is written, for every \<open>min < max\<close>, fails at an infinite bound: with
  \<open>min = -Infinity\<close> and \<open>max = 0\<close> the values \<open>-5 \<le> -3\<close> of the range both have the
  percentage \<^verbatim>\<open>Infinity / Infinity\<close>, and the two \<open>NaN\<close> angles are not ordered.
\<close>

theorem valueToAngle_antimono_counterexample:
  "js_lt NInf (Fin 0)
   \<and> js_between NInf (Fin 0) (Fin (- 5)) \<and> js_between NInf (Fin 0) (Fin (- 3))
   \<and> js_le (Fin (- 5)) (Fin (- 3))
   \<and> \<not> js_le (valueToAngle (Fin (- 3)) NInf (Fin 0)) (valueToAngle (Fin (- 5)) NInf (Fin 0))
   \<and> \<not> js_ge (startAngle (zoneToArcAngles (Fin (- 5)) (Fin (- 3)) NInf (Fin 0)))
              (endAngle (zoneToArcAngles (Fin (- 5)) (Fin (- 3)) NInf (Fin 0)))"
  by (simp add: js_between_def zoneToArcAngles_def valueToAngle_def valueToPercentage_def
        percentageToAngle_def js_eq_def js_ge_def clampValue_def js_max_def js_min_def
        js_sub_def)

section \<open>The zone classifier\<close>

lemma getZoneForValue_range_clamp:
  "getZoneForValue_range r v = zone_loop (clampValue v (min' r) (max' r)) (zones r)"
  by (simp add: getZoneForValue_range_def clampValue_def)

text \<open>The loop returns the type of the first zone that passes the test, if there is one.\<close>

lemma zone_loop_find:
  "zone_loop c zs = (case find (zone_contains c) zs of Some z \<Rightarrow> type' z | None \<Rightarrow> red)"
  by (induction zs) simp_all

lemma zone_loop_none: "\<forall>z\<in>set zs. \<not> zone_contains c z \<Longrightarrow> zone_loop c zs = red"
  by (induction zs) simp_all

lemma zone_contains_NaN: "\<not> zone_contains NaN z"
  by (simp add: zone_contains_def js_ge_def)

lemma covers_find:
  "covers lo zs hi \<Longrightarrow> lo \<le> c \<Longrightarrow> c \<le> hi \<Longrightarrow> \<exists>z. find (zone_contains (Fin c)) zs = Some z"
proof (induction zs arbitrary: lo)
  case Nil
  then show ?case by simp
next
  case (Cons z rest)
  from Cons.prems(1) obtain e where st: "start z = Fin lo" and en: "end' z = Fin e"
    and rest: "if rest = [] then lo \<le> e \<and> e = hi else lo < e \<and> covers e rest hi"
    by (auto split: jsnum.splits)
  show ?case
  proof (cases "c \<le> e")
    case True
    then have "zone_contains (Fin c) z"
      using st en Cons.prems(2) by (simp add: zone_contains_def js_ge_def)
    then show ?thesis by simp
  next
    case False
    with rest Cons.prems(3) have "rest \<noteq> []" "covers e rest hi" by (auto split: if_splits)
    with Cons.IH [of e] False Cons.prems(3) show ?thesis by auto
  qed
qed

text \<open>Every zone but the last ends strictly above the start of the table.\<close>

lemma covers_end_above:
  "covers lo zs hi \<Longrightarrow> Suc j < length zs \<Longrightarrow> \<exists>c. end' (zs ! j) = Fin c \<and> lo < c"
proof (induction zs arbitrary: lo j)
  case Nil
  then show ?case by simp
next
  case (Cons z rest)
  from Cons.prems(2) have ne: "rest \<noteq> []" by auto
  with Cons.prems(1) obtain e where en: "end' z = Fin e" and lt: "lo < e"
    and cov: "covers e rest hi"
    by (auto split: jsnum.splits)
  show ?case
  proof (cases j)
    case 0
    then show ?thesis using en lt by simp
  next
    case (Suc k)
    with Cons.prems(2) have "Suc k < length rest" by simp
    from Cons.IH [OF cov this] obtain c where "end' (rest ! k) = Fin c" "e < c" by blast
    then show ?thesis using Suc lt by auto
  qed
qed

text \<open>On the boundary between zone \<open>i\<close> and the next one, zone \<open>i\<close> is the first match.\<close>

lemma covers_boundary:
  "covers lo zs hi \<Longrightarrow> Suc i < length zs \<Longrightarrow> end' (zs ! i) = Fin c \<Longrightarrow>
     find (zone_contains (Fin c)) zs = Some (zs ! i)"
proof (induction zs arbitrary: lo i)
  case Nil
  then show ?case by simp
next
  case (Cons z rest)
  from Cons.prems(2) have ne: "rest \<noteq> []" by auto
  with Cons.prems(1) obtain e where st: "start z = Fin lo" and en: "end' z = Fin e"
    and lt: "lo < e" and cov: "covers e rest hi"
    by (auto split: jsnum.splits)
  show ?case
  proof (cases i)
    case 0
    with Cons.prems(3) en have "c = e" by simp
    then have "zone_contains (Fin c) z"
      using st en lt by (simp add: zone_contains_def js_ge_def)
    then show ?thesis using 0 by simp
  next
    case (Suc k)
    with Cons.prems have k: "Suc k < length rest" and ek: "end' (rest ! k) = Fin c"
      by simp_all
    from covers_end_above [OF cov k] ek have "e < c" by auto
    then have "\<not> zone_contains (Fin c) z"
      using en by (simp add: zone_contains_def)
    then show ?thesis using Cons.IH [OF cov k ek] Suc by simp
  qed
qed

text \<open>
  Claim C1. On a well-formed range and for a value of \<open>[min, max]\<close>, some zone contains
  the clamped value and \<^verbatim>\<open>getZoneForValue\<close> returns the type of the first such zone in list
  order; a value equal to the end of a zone that has a successor, which is the start of
  that successor, gets the type of the earlier of the two.
\<close>

theorem classify_first_match:
  assumes "well_formed r" and "js_le (min' r) v" and "js_le v (max' r)"
  shows "(\<exists>z. find (zone_contains (clampValue v (min' r) (max' r))) (zones r) = Some z
              \<and> getZoneForValue_range r v = type' z)
       \<and> (\<forall>i. Suc i < length (zones r) \<and> v = end' (zones r ! i)
              \<longrightarrow> getZoneForValue_range r v = type' (zones r ! i))"
proof -
  from assms(1) obtain lo hi where lo: "min' r = Fin lo" and hi: "max' r = Fin hi"
    and cov: "covers lo (zones r) hi"
    by (auto simp: well_formed_def split: jsnum.splits)
  from assms(2,3) lo hi obtain c where v: "v = Fin c" and c: "lo \<le> c" "c \<le> hi"
    by (cases v) auto
  have cl: "clampValue v (min' r) (max' r) = v"
    using assms(2,3) by (rule clampValue_inside)
  have res: "getZoneForValue_range r v =
      (case find (zone_contains v) (zones r) of Some z \<Rightarrow> type' z | None \<Rightarrow> red)"
    by (simp add: getZoneForValue_range_clamp cl zone_loop_find)
  from covers_find [OF cov c] obtain z where z: "find (zone_contains v) (zones r) = Some z"
    using v by blast
  have first: "\<exists>z. find (zone_contains (clampValue v (min' r) (max' r))) (zones r) = Some z
                  \<and> getZoneForValue_range r v = type' z"
    using z res cl by simp
  have boundary: "getZoneForValue_range r v = type' (zones r ! i)"
    if "Suc i < length (zones r)" and "v = end' (zones r ! i)" for i
  proof -
    from that(2) v have "end' (zones r ! i) = Fin c" by simp
    from covers_boundary [OF cov that(1) this] show ?thesis
      using res v by simp
  qed
  show ?thesis using first boundary by blast
qed

theorem classify_first_match_witness:
  "well_formed \<lparr> min' = Fin 0, max' = Fin 70, unit' = [], label = [],
                 zones = [zone 0 50 red, zone 50 70 yellow] \<rparr>
   \<and> js_le (Fin 0) (Fin 50) \<and> js_le (Fin 50) (Fin 70)
   \<and> getZoneForValue_range
        \<lparr> min' = Fin 0, max' = Fin 70, unit' = [], label = [],
          zones = [zone 0 50 red, zone 50 70 yellow] \<rparr> (Fin 50) = red"
proof -
  define r where "r = \<lparr> min' = Fin 0, max' = Fin 70, unit' = [], label = [],
                        zones = [zone 0 50 red, zone 50 70 yellow] \<rparr>"
  have wf: "well_formed r" by (simp add: r_def well_formed_def zone_def)
  have lo: "js_le (min' r) (Fin 50)" by (simp add: r_def)
  have hi: "js_le (Fin 50) (max' r)" by (simp add: r_def)
  have "\<forall>i. Suc i < length (zones r) \<and> Fin 50 = end' (zones r ! i)
            \<longrightarrow> getZoneForValue_range r (Fin 50) = type' (zones r ! i)"
    using classify_first_match [OF wf lo hi] by (rule conjunct2)
  then have "Suc 0 < length (zones r) \<and> Fin 50 = end' (zones r ! 0)
            \<longrightarrow> getZoneForValue_range r (Fin 50) = type' (zones r ! 0)" by (rule spec)
  then have "getZoneForValue_range r (Fin 50) = red" by (simp add: r_def zone_def)
  then show ?thesis using wf lo hi by (simp add: r_def)
qed

text \<open>
  Claim C5. \<^verbatim>\<open>getZoneForValue\<close> gives every value the type it gives the clamped value;
  when no zone contains the clamped value it returns \<open>red\<close>, and it does so for the value
  \<open>NaN\<close> on every range, since \<open>NaN\<close> passes through the clamp and fails every
  comparison. The function has no failing branch.
\<close>

theorem classify_clamps_and_falls_back:
  "getZoneForValue_range r v = getZoneForValue_range r (clampValue v (min' r) (max' r))
   \<and> ((\<forall>z\<in>set (zones r). \<not> zone_contains (clampValue v (min' r) (max' r)) z)
        \<longrightarrow> getZoneForValue_range r v = red)
   \<and> getZoneForValue_range r NaN = red"
proof -
  have "\<forall>z\<in>set (zones r). \<not> zone_contains NaN z"
    by (simp add: zone_contains_NaN)
  then have "zone_loop NaN (zones r) = red" by (rule zone_loop_none)
  then show ?thesis
    by (simp add: getZoneForValue_range_clamp clampValue_idem clampValue_NaN zone_loop_none)
qed

theorem classify_clamps_and_falls_back_witness:
  "\<not> zone_contains (clampValue PInf (Fin 0) (Fin 10)) (zone 0 3 green)
   \<and> getZoneForValue_range
        \<lparr> min' = Fin 0, max' = Fin 10, unit' = [], label = [], zones = [zone 0 3 green] \<rparr>
        PInf = red
   \<and> getZoneForValue_range
        \<lparr> min' = Fin 0, max' = Fin 10, unit' = [], label = [], zones = [zone 0 3 green] \<rparr>
        PInf
     = getZoneForValue_range
        \<lparr> min' = Fin 0, max' = Fin 10, unit' = [], label = [], zones = [zone 0 3 green] \<rparr>
        (Fin 10)"
proof -
  define r where "r = \<lparr> min' = Fin 0, max' = Fin 10, unit' = [], label = [],
                        zones = [zone 0 3 green] \<rparr>"
  have cl: "clampValue PInf (min' r) (max' r) = Fin 10"
    by (simp add: r_def clampValue_def js_max_def js_min_def)
  have none: "\<forall>z\<in>set (zones r). \<not> zone_contains (clampValue PInf (min' r) (max' r)) z"
    by (simp add: cl) (simp add: r_def zone_def zone_contains_def js_ge_def)
  have same: "getZoneForValue_range r PInf = getZoneForValue_range r (Fin 10)"
    using cl classify_clamps_and_falls_back [of r PInf] by metis
  have fallback: "getZoneForValue_range r PInf = red"
    using none classify_clamps_and_falls_back [of r PInf] by blast
  have "getZoneForValue_range r (Fin 10) = red"
    using same fallback by simp
  then show ?thesis
    using none cl fallback by (simp add: r_def)
qed

text \<open>The six tables of the program are well formed, so the classifier is total on them.\<close>

lemma REFERENCE_RANGES_well_formed: "well_formed (REFERENCE_RANGES k)"
  by (cases k) (simp_all add: well_formed_def zone_def)

lemma getZoneForValue_on_tables:
  "getZoneForValue DF (Fin 50) = red"
  "getZoneForValue MF (Fin 10) = red"
  "getZoneForValue MAP (Fin 110) = yellow"
  "getZoneForValue MF PInf = green"
  by (simp_all add: getZoneForValue_def getZoneForValue_range_def zone_def zone_contains_def
        js_max_def js_min_def js_ge_def)

section \<open>The fill percentage of the Gauge component\<close>

text \<open>
  Claim C10, as the source has it. \<^verbatim>\<open>Gauge\<close> computes its fill with the unguarded
  quotient. On a degenerate finite range the quotient is \<open>0 / 0\<close> only when the value
  equals the bound, and the fill is \<open>NaN\<close> there (as it is for a \<open>NaN\<close> value); above the
  bound the quotient is \<^verbatim>\<open>Infinity\<close> and the clamp makes the fill 100, below it
  \<^verbatim>\<open>-Infinity\<close> and the fill is 0. \<^verbatim>\<open>valueToPercentage\<close> returns 0 in all these cases.
  This is for a divisor \<^verbatim>\<open>max - min\<close> that is \<^verbatim>\<open>+0\<close>, as it is for every \<^verbatim>\<open>min == max\<close> but
  \<^verbatim>\<open>max = -0\<close> with \<^verbatim>\<open>min = +0\<close>; that pair, whose divisor is \<^verbatim>\<open>-0\<close>, is outside the model.
\<close>

theorem Gauge_percentage_degenerate:
  "Gauge_percentage v (Fin m) (Fin m) =
     (if js_gt v (Fin m) then Fin 100 else if js_lt v (Fin m) then Fin 0 else NaN)
   \<and> valueToPercentage v (Fin m) (Fin m) = Fin 0"
  by (cases v)
     (simp_all add: Gauge_percentage_def js_sub_def signed_inf_def js_max_def js_min_def
        js_gt_def valueToPercentage_def js_eq_def)

theorem Gauge_percentage_counterexample:
  "Gauge_percentage (Fin 5) (Fin 3) (Fin 3) = Fin 100
   \<and> Gauge_percentage (Fin 5) (Fin 3) (Fin 3) \<noteq> NaN"
  by (simp add: Gauge_percentage_def js_sub_def signed_inf_def js_max_def js_min_def)

section \<open>Points on the arc\<close>

subsection \<open>The sine series in nested form\<close>







subsection \<open>\<open>Math_PI\<close> is below \<open>pi\<close>, by less than \<open>2\<^sup>-\<^sup>5\<^sup>2\<close>\<close>




subsection \<open>The three axis points\<close>








section \<open>The arc path\<close>

lemma nat_str_digit: "n < 10 \<Longrightarrow> nat_str n = [digit_char n]"
  by (simp add: nat_str.simps)


section \<open>Formatting a value for display\<close>

lemma digit_cases:
  "d < 10 \<Longrightarrow>
     d = 0 \<or> d = 1 \<or> d = 2 \<or> d = 3 \<or> d = 4 \<or> d = 5 \<or> d = 6 \<or> d = 7 \<or> d = 8 \<or> d = (9::nat)"
  by arith

lemma digit_char_is_digit: "d < 10 \<Longrightarrow> is_digit (digit_char d)"
  using digit_cases [of d] by (auto simp: is_digit_def digit_char_def)

lemma digit_val_digit_char: "d < 10 \<Longrightarrow> digit_val (digit_char d) = d"
  using digit_cases [of d] by (auto simp: digit_val_def digit_char_def)

lemma nat_str_is_digit: "list_all is_digit (nat_str n)"
proof (induction n rule: nat_str.induct)
  case (1 n)
  show ?case
  proof (cases "n < 10")
    case True
    then show ?thesis by (simp add: nat_str.simps [of n] digit_char_is_digit)
  next
    case False
    then show ?thesis using 1 by (simp add: nat_str.simps [of n] digit_char_is_digit)
  qed
qed

lemma nat_str_nonempty: "nat_str n \<noteq> []"
  by (simp add: nat_str.simps [of n])

lemma digits_val_snoc: "digits_val (xs @ [c]) = 10 * digits_val xs + digit_val c"
  by (simp add: digits_val_def)

text \<open>Reading the digits of a number gives the number back.\<close>

lemma digits_val_nat_str: "digits_val (nat_str n) = n"
proof (induction n rule: nat_str.induct)
  case (1 n)
  show ?case
  proof (cases "n < 10")
    case True
    then show ?thesis by (simp add: nat_str.simps [of n] digits_val_def digit_val_digit_char)
  next
    case False
    then have "digits_val (nat_str (n div 10)) = n div 10" using 1 by simp
    then show ?thesis using False
      by (simp add: nat_str.simps [of n] digits_val_snoc digit_val_digit_char)
  qed
qed

lemma digits_val_zeros: "digits_val (replicate k (CHR ''0'') @ xs) = digits_val xs"
proof -
  have "foldl (\<lambda>acc c. 10 * acc + digit_val c) 0 (replicate k (CHR ''0'')) = 0"
    by (induction k) (simp_all add: digit_val_def)
  then show ?thesis by (simp add: digits_val_def)
qed

lemma is_digit_not_mark: "is_digit c \<Longrightarrow> c \<noteq> CHR ''.'' \<and> c \<noteq> CHR ''-''"
  by (auto simp: is_digit_def)

lemma digits_no_point: "list_all is_digit ds \<Longrightarrow> \<forall>c\<in>set ds. c \<noteq> CHR ''.''"
  by (auto simp: list_all_iff is_digit_not_mark)

lemma digits_no_minus: "list_all is_digit ds \<Longrightarrow> ds \<noteq> [] \<Longrightarrow> take 1 ds \<noteq> ''-''"
  by (cases ds) (auto simp: is_digit_not_mark)

lemma fraction_part_point:
  assumes "list_all is_digit ip"
  shows "fraction_part (ip @ ''.'' @ fp) = fp" "fraction_part (''-'' @ ip @ ''.'' @ fp) = fp"
proof -
  have dw: "dropWhile (\<lambda>c. c \<noteq> CHR ''.'') (ip @ CHR ''.'' # fp) = CHR ''.'' # fp"
    using digits_no_point [OF assms] by (simp add: dropWhile_append2)
  show "fraction_part (ip @ ''.'' @ fp) = fp" "fraction_part (''-'' @ ip @ ''.'' @ fp) = fp"
    by (simp_all add: fraction_part_def dw)
qed

lemma dec_value_unsigned_point:
  assumes "ip \<noteq> []" "list_all is_digit ip" "list_all is_digit fp"
  shows "dec_value (ip @ ''.'' @ fp) = real (digits_val (ip @ fp)) / 10 ^ length fp"
proof -
  have nm: "take 1 (ip @ ''.'' @ fp) \<noteq> ''-''"
    using assms(1,2) by (cases ip) (auto simp: is_digit_not_mark)
  have tw: "takeWhile (\<lambda>c. c \<noteq> CHR ''.'') (ip @ CHR ''.'' # fp) = ip"
    using digits_no_point [OF assms(2)] by (simp add: takeWhile_append2)
  have fr: "fraction_part (ip @ CHR ''.'' # fp) = fp"
    using fraction_part_point(1) [OF assms(2), of fp] by simp
  show ?thesis
    unfolding dec_value_def Let_def using nm by (simp add: tw fr)
qed

lemma dec_value_signed_point:
  assumes "ip \<noteq> []" "list_all is_digit ip" "list_all is_digit fp"
  shows "dec_value (''-'' @ ip @ ''.'' @ fp) = - (real (digits_val (ip @ fp)) / 10 ^ length fp)"
proof -
  have tw: "takeWhile (\<lambda>c. c \<noteq> CHR ''.'') (ip @ CHR ''.'' # fp) = ip"
    using digits_no_point [OF assms(2)] by (simp add: takeWhile_append2)
  have fr: "fraction_part (ip @ CHR ''.'' # fp) = fp"
    using fraction_part_point(1) [OF assms(2), of fp] by simp
  have "dec_value (CHR ''-'' # (ip @ CHR ''.'' # fp)) =
          - (real (digits_val (ip @ fp)) / 10 ^ length fp)"
    unfolding dec_value_def Let_def by (simp add: tw fr)
  then show ?thesis by simp
qed

lemma dec_value_int_str: "dec_value (int_str i) = of_int i"
proof -
  have plain: "dec_value ds = real (digits_val ds)"
    if "list_all is_digit ds" "ds \<noteq> []" for ds
  proof -
    have tw: "takeWhile (\<lambda>c. c \<noteq> CHR ''.'') ds = ds"
      and dw: "dropWhile (\<lambda>c. c \<noteq> CHR ''.'') ds = []"
      using digits_no_point [OF that(1)] by simp_all
    show ?thesis
      unfolding dec_value_def Let_def fraction_part_def
      using digits_no_minus [OF that] by (simp add: tw dw)
  qed
  have minus: "dec_value (CHR ''-'' # ds) = - real (digits_val ds)"
    if "list_all is_digit ds" for ds
  proof -
    have tw: "takeWhile (\<lambda>c. c \<noteq> CHR ''.'') ds = ds"
      and dw: "dropWhile (\<lambda>c. c \<noteq> CHR ''.'') ds = []"
      using digits_no_point [OF that(1)] by simp_all
    show ?thesis
      unfolding dec_value_def Let_def fraction_part_def by (simp add: tw dw)
  qed
  show ?thesis
  proof (cases "i < 0")
    case True
    then show ?thesis
      using minus [OF nat_str_is_digit, of "nat (- i)"]
      by (simp add: int_str_def digits_val_nat_str)
  next
    case False
    then show ?thesis
      using plain [OF nat_str_is_digit nat_str_nonempty, of "nat i"]
      by (simp add: int_str_def digits_val_nat_str)
  qed
qed

lemma int_str_no_point: "CHR ''.'' \<notin> set (int_str i)"
  using digits_no_point [OF nat_str_is_digit] by (auto simp: int_str_def)

text \<open>
  With at least one fraction digit, \<^verbatim>\<open>toFixed\<close> writes a nonempty integer part, the point
  and exactly \<open>f\<close> fraction digits, and the digits read together are the rounded \<open>n\<close>.
\<close>

lemma toFixed_digits_shape:
  assumes "f \<noteq> 0"
  shows "\<exists>ip fp. toFixed_digits x f = ip @ ''.'' @ fp \<and> ip \<noteq> [] \<and> list_all is_digit ip
            \<and> list_all is_digit fp \<and> length fp = f
            \<and> digits_val (ip @ fp) = nat \<lfloor>x * 10 ^ f + 1 / 2\<rfloor>"
proof -
  define n where "n = nat \<lfloor>x * 10 ^ f + 1 / 2\<rfloor>"
  define m where "m = nat_str n"
  define k where "k = length m"
  define m2 where "m2 = (if k \<le> f then replicate (f + 1 - k) (CHR ''0'') @ m else m)"
  define k2 where "k2 = (if k \<le> f then f + 1 else k)"
  have eq: "toFixed_digits x f = take (k2 - f) m2 @ ''.'' @ drop (k2 - f) m2"
    using assms by (simp add: toFixed_digits_def Let_def n_def m_def k_def m2_def k2_def)
  have kpos: "0 < k" using nat_str_nonempty [of n] by (simp add: k_def m_def)
  have len: "length m2 = k2" by (simp add: m2_def k2_def k_def)
  have gt: "f < k2" by (simp add: k2_def)
  have dm: "list_all is_digit m" by (simp add: m_def nat_str_is_digit)
  have z: "is_digit (CHR ''0'')" by (simp add: is_digit_def)
  have d2: "list_all is_digit m2"
    using dm z by (simp add: m2_def list_all_iff)
  have v2: "digits_val m2 = n"
    by (simp add: m2_def digits_val_zeros m_def digits_val_nat_str)
  let ?ip = "take (k2 - f) m2" and ?fp = "drop (k2 - f) m2"
  have "?ip \<noteq> []" using len gt kpos by auto
  moreover have "list_all is_digit ?ip" "list_all is_digit ?fp"
    using d2 by (auto simp: list_all_iff dest: in_set_takeD in_set_dropD)
  moreover have "length ?fp = f" using len gt by simp
  moreover have "digits_val (?ip @ ?fp) = n" using v2 by simp
  ultimately show ?thesis using eq unfolding n_def by blast
qed

lemma round_half_bound:
  fixes y :: real
  assumes "0 \<le> y"
  shows "\<bar>real (nat \<lfloor>y + 1 / 2\<rfloor>) - y\<bar> \<le> 1 / 2"
proof -
  have "0 \<le> \<lfloor>y + 1 / 2\<rfloor>" using assms by simp
  then have "real (nat \<lfloor>y + 1 / 2\<rfloor>) = of_int \<lfloor>y + 1 / 2\<rfloor>" by simp
  then show ?thesis by linarith
qed

lemma formatDisplayValue_integer_case:
  fixes a :: real
  assumes "\<bar>a\<bar> \<le> 2 ^ 53" and "of_int \<lfloor>a\<rfloor> = a \<or> d = 0"
  shows "formatDisplayValue sh (Fin a) (Fin (real d)) = Inr (int_str \<lfloor>a + 1 / 2\<rfloor>)"
proof -
  have up: "\<lfloor>a + 1 / 2\<rfloor> \<le> 2 ^ 53"
    using assms(1) by (simp add: floor_le_iff)
  have lo: "- (2 ^ 53) \<le> \<lfloor>a + 1 / 2\<rfloor>"
    using assms(1) by (simp add: le_floor_iff)
  have "real_of_int \<lfloor>a + 1 / 2\<rfloor> \<le> real_of_int (2 ^ 53)"
    using up by (rule of_int_le_iff [THEN iffD2])
  moreover have "real_of_int (- (2 ^ 53)) \<le> real_of_int \<lfloor>a + 1 / 2\<rfloor>"
    using lo by (rule of_int_le_iff [THEN iffD2])
  moreover have "real_of_int (2 ^ 53) = 2 ^ 53" "real_of_int (- (2 ^ 53)) = - (2 ^ 53)"
    by simp_all
  ultimately have "\<bar>real_of_int \<lfloor>a + 1 / 2\<rfloor>\<bar> \<le> 2 ^ 53" by linarith
  then have "js_toString sh (Fin (of_int \<lfloor>a + 1 / 2\<rfloor>)) = int_str \<lfloor>a + 1 / 2\<rfloor>"
    by (simp add: js_toString_def)
  then show ?thesis
    using assms(2)
    by (auto simp: formatDisplayValue_def Number_isInteger_def js_eq_def Math_round_def)
qed

lemma formatDisplayValue_fixed_case:
  fixes a :: real
  assumes "\<bar>a\<bar> \<le> 2 ^ 53" and "d \<le> 100" and "of_int \<lfloor>a\<rfloor> \<noteq> a" and "d \<noteq> 0"
  shows "formatDisplayValue sh (Fin a) (Fin (real d)) =
           Inr ((if a < 0 then ''-'' else []) @ toFixed_digits \<bar>a\<bar> d)"
proof -
  have "\<lfloor>real d\<rfloor> = int d" by simp
  then have ti: "ToIntegerOrInfinity (Fin (real d)) = Some (int d)"
    by (simp add: ToIntegerOrInfinity_def)
  have small: "\<not> 10 ^ 21 \<le> \<bar>a\<bar>" using assms(1) by simp
  have "js_toFixed sh (Fin a) (Fin (real d)) =
           Inr ((if a < 0 then ''-'' else []) @ toFixed_digits \<bar>a\<bar> d)"
    using assms(2) small by (auto simp: js_toFixed_def ti Let_def abs_real_def)
  then show ?thesis
    using assms(3,4) by (simp add: formatDisplayValue_def Number_isInteger_def js_eq_def)
qed

lemma formatDisplayValue_fixed_value:
  fixes a :: real
  assumes "\<bar>a\<bar> \<le> 2 ^ 53" and "d \<le> 100" and "of_int \<lfloor>a\<rfloor> \<noteq> a" and "d \<noteq> 0"
  shows "\<exists>s. formatDisplayValue sh (Fin a) (Fin (real d)) = Inr s
           \<and> length (fraction_part s) = d \<and> list_all is_digit (fraction_part s)
           \<and> dec_value s =
               (if a < 0 then - 1 else 1) * real (nat \<lfloor>\<bar>a\<bar> * 10 ^ d + 1 / 2\<rfloor>) / 10 ^ d
           \<and> \<bar>dec_value s - a\<bar> \<le> 1 / (2 * 10 ^ d)"
proof -
  define n where "n = nat \<lfloor>\<bar>a\<bar> * 10 ^ d + 1 / 2\<rfloor>"
  obtain ip fp where sh: "toFixed_digits \<bar>a\<bar> d = ip @ ''.'' @ fp" and ne: "ip \<noteq> []"
    and di: "list_all is_digit ip" and df: "list_all is_digit fp" and lf: "length fp = d"
    and dv: "digits_val (ip @ fp) = n"
    using toFixed_digits_shape [OF assms(4), of "\<bar>a\<bar>"] unfolding n_def by blast
  define s where "s = (if a < 0 then ''-'' else []) @ toFixed_digits \<bar>a\<bar> d"
  have res: "formatDisplayValue sh (Fin a) (Fin (real d)) = Inr s"
    unfolding s_def by (rule formatDisplayValue_fixed_case [OF assms])
  have fr: "fraction_part s = fp"
    using fraction_part_point [OF di, of fp] by (simp add: s_def sh)
  have val: "dec_value s = (if a < 0 then - 1 else 1) * real n / 10 ^ d"
    using dec_value_unsigned_point [OF ne di df] dec_value_signed_point [OF ne di df]
    by (simp add: s_def sh dv lf)
  have "\<bar>real n - \<bar>a\<bar> * 10 ^ d\<bar> \<le> 1 / 2"
    unfolding n_def by (rule round_half_bound) simp
  then have "\<bar>real n - \<bar>a\<bar> * 10 ^ d\<bar> / 10 ^ d \<le> (1 / 2) / 10 ^ d"
    by (rule divide_right_mono) simp
  moreover have "\<bar>real n - \<bar>a\<bar> * 10 ^ d\<bar> / 10 ^ d = \<bar>real n / 10 ^ d - \<bar>a\<bar>\<bar>"
  proof -
    have "real n / 10 ^ d - \<bar>a\<bar> = (real n - \<bar>a\<bar> * 10 ^ d) / 10 ^ d"
      by (simp add: diff_divide_distrib)
    then show ?thesis by (simp add: abs_divide)
  qed
  ultimately have b: "\<bar>real n / 10 ^ d - \<bar>a\<bar>\<bar> \<le> 1 / (2 * 10 ^ d)" by simp
  have "\<bar>dec_value s - a\<bar> = \<bar>real n / 10 ^ d - \<bar>a\<bar>\<bar>"
    by (simp add: val abs_real_def)
  then have bound: "\<bar>dec_value s - a\<bar> \<le> 1 / (2 * 10 ^ d)" using b by simp
  show ?thesis
    using res fr lf df val bound unfolding n_def by blast
qed

lemma nat_str_3: "nat_str 3 = ''3''"
  by (simp add: nat_str_digit digit_char_def)

lemma nat_str_35: "nat_str 35 = ''35''"
  by (simp add: nat_str.simps [of 35] nat_str_digit digit_char_def)

lemma formatDisplayValue_examples:
  "formatDisplayValue sh (Fin 3) (Fin 1) = Inr ''3''"
  "formatDisplayValue sh (Fin 3.456) (Fin 1) = Inr ''3.5''"
  "formatDisplayValue sh (Fin 3.456) (Fin 0) = Inr ''3''"
proof -
  show "formatDisplayValue sh (Fin 3) (Fin 1) = Inr ''3''"
    by (simp add: formatDisplayValue_def Number_isInteger_def js_toString_def Math_round_def
          int_str_def nat_str_3)
  show "formatDisplayValue sh (Fin 3.456) (Fin 1) = Inr ''3.5''"
    by (simp add: formatDisplayValue_def Number_isInteger_def js_eq_def js_toFixed_def
          ToIntegerOrInfinity_def toFixed_digits_def nat_str_35)
  show "formatDisplayValue sh (Fin 3.456) (Fin 0) = Inr ''3''"
    by (simp add: formatDisplayValue_def Number_isInteger_def js_eq_def js_toString_def
          Math_round_def int_str_def nat_str_3)
qed

text \<open>
  Claim C9, as the source has it. For a finite value of magnitude at most \<open>2\<^sup>5\<^sup>3\<close> and a
  whole number of decimal places: if the value is an integer or the number of places is
  0, the result is the decimal numeral of the value rounded to the nearest integer (a tie
  going up), without a point; otherwise, for at most 100 places, the result has exactly
  that many digits after the point and denotes the value rounded to the nearest multiple
  of \<open>10\<^sup>-\<^sup>d\<close> (a tie going away from zero). The three examples of the claim hold.
\<close>

theorem formatDisplayValue_rendering:
  fixes a :: real
  shows "(\<bar>a\<bar> \<le> 2 ^ 53 \<and> (of_int \<lfloor>a\<rfloor> = a \<or> d = 0) \<longrightarrow>
            formatDisplayValue sh (Fin a) (Fin (real d)) = Inr (int_str \<lfloor>a + 1 / 2\<rfloor>)
            \<and> CHR ''.'' \<notin> set (int_str \<lfloor>a + 1 / 2\<rfloor>)
            \<and> dec_value (int_str \<lfloor>a + 1 / 2\<rfloor>) = of_int \<lfloor>a + 1 / 2\<rfloor>)
       \<and> (\<bar>a\<bar> \<le> 2 ^ 53 \<and> d \<le> 100 \<and> of_int \<lfloor>a\<rfloor> \<noteq> a \<and> d \<noteq> 0 \<longrightarrow>
            (\<exists>s. formatDisplayValue sh (Fin a) (Fin (real d)) = Inr s
               \<and> length (fraction_part s) = d \<and> list_all is_digit (fraction_part s)
               \<and> dec_value s =
                   (if a < 0 then - 1 else 1) * real (nat \<lfloor>\<bar>a\<bar> * 10 ^ d + 1 / 2\<rfloor>) / 10 ^ d
               \<and> \<bar>dec_value s - a\<bar> \<le> 1 / (2 * 10 ^ d)))
       \<and> formatDisplayValue sh (Fin 3) (Fin 1) = Inr ''3''
       \<and> formatDisplayValue sh (Fin 3.456) (Fin 1) = Inr ''3.5''
       \<and> formatDisplayValue sh (Fin 3.456) (Fin 0) = Inr ''3''"
  using formatDisplayValue_integer_case [of a d sh] formatDisplayValue_fixed_value [of a d sh]
    formatDisplayValue_examples [of sh] int_str_no_point dec_value_int_str
  by blast

theorem formatDisplayValue_rendering_witness:
  "\<bar>3 :: real\<bar> \<le> 2 ^ 53 \<and> real_of_int \<lfloor>3 :: real\<rfloor> = 3
   \<and> formatDisplayValue unknown_digits (Fin 3) (Fin 1) = Inr ''3''
   \<and> \<bar>3.456 :: real\<bar> \<le> 2 ^ 53 \<and> (1 :: nat) \<le> 100
   \<and> real_of_int \<lfloor>3.456 :: real\<rfloor> \<noteq> 3.456 \<and> (1 :: nat) \<noteq> 0
   \<and> formatDisplayValue unknown_digits (Fin 3.456) (Fin 1) = Inr ''3.5''
   \<and> length (fraction_part ''3.5'') = 1
   \<and> \<bar>dec_value ''3.5'' - 3.456\<bar> \<le> 1 / (2 * 10 ^ 1)"
proof -
  note r = formatDisplayValue_rendering [of "3.456" 1 unknown_digits]
  have h: "\<bar>3.456 :: real\<bar> \<le> 2 ^ 53 \<and> (1 :: nat) \<le> 100
           \<and> real_of_int \<lfloor>3.456 :: real\<rfloor> \<noteq> 3.456 \<and> (1 :: nat) \<noteq> 0"
    by simp
  have ex: "formatDisplayValue unknown_digits (Fin 3.456) (Fin 1) = Inr ''3.5''"
    and ex3: "formatDisplayValue unknown_digits (Fin 3) (Fin 1) = Inr ''3''"
    using r by blast+
  from r h obtain s where s: "formatDisplayValue unknown_digits (Fin 3.456) (Fin (real 1)) = Inr s"
    and len: "length (fraction_part s) = 1"
    and bound: "\<bar>dec_value s - 3.456\<bar> \<le> 1 / (2 * 10 ^ 1)"
    by blast
  from s ex have "s = ''3.5''" by simp
  with len bound have "length (fraction_part ''3.5'') = 1"
    "\<bar>dec_value ''3.5'' - 3.456\<bar> \<le> 1 / (2 * 10 ^ 1)" by simp_all
  moreover have "\<bar>3 :: real\<bar> \<le> 2 ^ 53 \<and> real_of_int \<lfloor>3 :: real\<rfloor> = 3" by simp
  ultimately show ?thesis using h ex ex3 by blast
qed

text \<open>
  The claim as it is written fails outside that domain: \<open>NaN\<close> with one decimal place is
  rendered \<^verbatim>\<open>NaN\<close>, which has no fraction digit, and 101 decimal places make \<^verbatim>\<open>toFixed\<close>
  throw a \<^verbatim>\<open>RangeError\<close>. Above \<open>2\<^sup>5\<^sup>3\<close> the integer branch prints the shortest digits that
  read back as the value, padded with zeros, which is not the numeral of the value.
\<close>

theorem formatDisplayValue_counterexample:
  "formatDisplayValue unknown_digits NaN (Fin 1) = Inr ''NaN''
   \<and> length (fraction_part ''NaN'') \<noteq> 1
   \<and> formatDisplayValue unknown_digits (Fin 0.5) (Fin 101) = Inl RangeError"
  by (simp add: formatDisplayValue_def Number_isInteger_def js_eq_def js_toFixed_def
        ToIntegerOrInfinity_def js_toString_def fraction_part_def)

end
